theory Spec2Isabelle
  imports Main "HOL-Library.AList" "HOL-Library.Sublist"
begin

section \<open>Values, exceptions and strings\<close>

text \<open>
  The value of \<^verbatim>\<open>json.loads\<close>: a JSON document decoded into Python objects. A dict is
  an association list in insertion order; lookups go through \<open>map_of\<close>, stores through
  \<open>AList.update\<close> (in place for an existing key, appended for a new one) and \<^verbatim>\<open>del\<close>
  through \<open>AList.delete\<close>. Numbers are never inspected by the program; a float is kept
  as mantissa and exponent. A Python \<^verbatim>\<open>str\<close> is a \<open>string\<close>, so code points are
  those below 256.
\<close>

datatype pyval =
    PNone
  | PBool bool
  | PInt int
  | PFloat int int
  | PStr string
  | PList "pyval list"
  | PDict "(string \<times> pyval) list"

text \<open>
  The exceptions that can reach the handler of \<^verbatim>\<open>run\<close>. \<open>KeyError\<close> and \<open>ValueError\<close>
  carry the argument they were raised with. \<open>TypeError\<close> is raised by the interpreter
  itself (membership test on a number, subscript with a string on a list or a string,
  a regular expression applied to a value that is not a string); its text is the
  interpreter's and is kept out of the model.
\<close>

datatype error =
    KeyError string
  | ValueError string
  | TypeError
  | JSONDecodeError string
  | UnboundLocalError string
  | OSError string

definition LF :: char where
  "LF = CHR 0x0A"

definition isspace :: "char \<Rightarrow> bool" where
  \<comment> \<open>\<^verbatim>\<open>str.isspace\<close> on the code points below 256\<close>
  "isspace c \<longleftrightarrow> (of_char c :: nat) \<in> {9, 10, 11, 12, 13, 28, 29, 30, 31, 32, 133, 160}"

definition strip :: "string \<Rightarrow> string" where
  \<comment> \<open>\<^verbatim>\<open>s.strip()\<close>\<close>
  "strip s = rev (dropWhile isspace (rev (dropWhile isspace s)))"

definition replace_newlines :: "string \<Rightarrow> string" where
  \<comment> \<open>\<^verbatim>\<open>s.replace("\n", ", ")\<close>\<close>
  "replace_newlines s = concat (map (\<lambda>c. if c = LF then '', '' else [c]) s)"

fun digits :: "nat \<Rightarrow> string" where
  \<comment> \<open>decimal digits of a non-negative integer, as \<^verbatim>\<open>str(n)\<close> writes them\<close>
  "digits n =
     (if n < 10 then [char_of (48 + n)]
      else digits (n div 10) @ [char_of (48 + n mod 10)])"

definition fmt04d :: "nat \<Rightarrow> string" where
  \<comment> \<open>the format specification \<^verbatim>\<open>:04d\<close>: zero-padded to a minimum width of 4\<close>
  "fmt04d n = replicate (4 - length (digits n)) (CHR ''0'') @ digits n"

section \<open>The regular expression of \<^verbatim>\<open>transform_address\<close>\<close>

text \<open>
  The fragment of \<^verbatim>\<open>re\<close> the pattern uses: a literal character, a character set
  repeated greedily one or more times (\<^verbatim>\<open>[...]+\<close>), a character set repeated exactly
  \<open>n\<close> times (\<^verbatim>\<open>[...]{n}\<close>), concatenation and a named group. The matcher returns
  every way the expression can match at the start of the string, in the order in which
  the backtracking engine tries them (list of successes): each entry is the rest of the
  string and the groups captured so far, most recent first.
\<close>

datatype item = Ch char | Rng char char

fun in_item :: "item \<Rightarrow> char \<Rightarrow> bool" where
  "in_item (Ch a) c \<longleftrightarrow> c = a"
| "in_item (Rng lo hi) c \<longleftrightarrow> (of_char lo :: nat) \<le> of_char c \<and> (of_char c :: nat) \<le> of_char hi"

definition in_set :: "item list \<Rightarrow> char \<Rightarrow> bool" where
  "in_set items c \<longleftrightarrow> list_ex (\<lambda>i. in_item i c) items"

datatype regex =
    Lit char
  | Plus "item list"
  | Rep nat "item list"
  | Seq regex regex
  | Group string regex

type_synonym groups = "(string \<times> string) list"

fun ms :: "regex \<Rightarrow> string \<Rightarrow> groups \<Rightarrow> (string \<times> groups) list" where
  "ms (Lit a) s g = (case s of [] \<Rightarrow> [] | c # t \<Rightarrow> if c = a then [(t, g)] else [])"
| "ms (Plus cs) s g =
     map (\<lambda>k. (drop k s, g)) (rev [1 ..< Suc (length (takeWhile (in_set cs) s))])"
| "ms (Rep n cs) s g =
     (if n \<le> length s \<and> list_all (in_set cs) (take n s) then [(drop n s, g)] else [])"
| "ms (Seq r1 r2) s g = concat (map (\<lambda>(t, g'). ms r2 t g') (ms r1 s g))"
| "ms (Group name r) s g =
     map (\<lambda>(t, g'). (t, (name, take (length s - length t) s) # g')) (ms r s g)"

definition re_match :: "regex \<Rightarrow> string \<Rightarrow> groups option" where
  \<comment> \<open>\<^verbatim>\<open>pattern.match(s)\<close>: the first success at position 0, or \<^verbatim>\<open>None\<close>\<close>
  "re_match r s = (case ms r s [] of [] \<Rightarrow> None | (t, g) # _ \<Rightarrow> Some g)"

definition group :: "groups \<Rightarrow> string \<Rightarrow> pyval" where
  \<comment> \<open>\<^verbatim>\<open>result.group(name)\<close>\<close>
  "group g name = (case map_of g name of None \<Rightarrow> PNone | Some v \<Rightarrow> PStr v)"

definition street_set :: "item list" where
  \<comment> \<open>\<^verbatim>\<open>[a-zA-Z0-9 .]\<close>\<close>
  "street_set = [Rng (CHR ''a'') (CHR ''z''), Rng (CHR ''A'') (CHR ''Z''),
                 Rng (CHR ''0'') (CHR ''9''), Ch (CHR '' ''), Ch (CHR ''.'')]"

definition city_set :: "item list" where
  \<comment> \<open>\<^verbatim>\<open>[a-zA-Z0-9 ]\<close>\<close>
  "city_set = [Rng (CHR ''a'') (CHR ''z''), Rng (CHR ''A'') (CHR ''Z''),
               Rng (CHR ''0'') (CHR ''9''), Ch (CHR '' '')]"

definition state_set :: "item list" where
  \<comment> \<open>\<^verbatim>\<open>[A-Z]\<close>\<close>
  "state_set = [Rng (CHR ''A'') (CHR ''Z'')]"

definition zip_set :: "item list" where
  \<comment> \<open>\<^verbatim>\<open>[0-9]\<close>\<close>
  "zip_set = [Rng (CHR ''0'') (CHR ''9'')]"

definition address_regex :: regex where
  "address_regex =
     Seq (Group ''street_address'' (Plus street_set))
    (Seq (Lit LF)
    (Seq (Group ''city'' (Plus city_set))
    (Seq (Lit (CHR '',''))
    (Seq (Lit (CHR '' ''))
    (Seq (Group ''state'' (Rep 2 state_set))
    (Seq (Lit (CHR '' ''))
         (Group ''zip'' (Rep 5 zip_set))))))))"

section \<open>The three row operations\<close>

text \<open>
  \<^verbatim>\<open>row[key]\<close> with a string key: a dict raises \<open>KeyError(key)\<close> for an absent key; a
  list, a string and every other value raise \<open>TypeError\<close>.
\<close>

fun subscript :: "pyval \<Rightarrow> string \<Rightarrow> error + pyval" where
  "subscript (PDict al) key =
     (case map_of al key of None \<Rightarrow> Inl (KeyError key) | Some v \<Rightarrow> Inr v)"
| "subscript _ key = Inl TypeError"

text \<open>
  \<^verbatim>\<open>field in row\<close>: key membership for a dict, element membership for a list, substring
  test for a string, \<open>TypeError\<close> for a value that is no container.
\<close>

fun contains :: "pyval \<Rightarrow> string \<Rightarrow> error + bool" where
  "contains (PDict al) field = Inr (map_of al field \<noteq> None)"
| "contains (PList xs) field = Inr (PStr field \<in> set xs)"
| "contains (PStr s) field = Inr (sublist field s)"
| "contains _ field = Inl TypeError"

definition VALID_FIELDS :: "string list" where
  "VALID_FIELDS = [''license_plate'', ''make_model'', ''year'', ''registered_name'',
                   ''registered_address'', ''registered_date'']"

fun check_schema :: "pyval \<Rightarrow> string list \<Rightarrow> error + bool" where
  "check_schema row [] = Inr True"
| "check_schema row (field # fields) =
     (case contains row field of
        Inl e \<Rightarrow> Inl e
      | Inr present \<Rightarrow>
          if \<not> present then Inl (KeyError (''Missing required field: '' @ field))
          else check_schema row fields)"

fun null_check :: "pyval \<Rightarrow> string list \<Rightarrow> error + bool" where
  "null_check row [] = Inr True"
| "null_check row (field # fields) =
     (case subscript row field of
        Inl e \<Rightarrow> Inl e
      | Inr v \<Rightarrow>
          if v = PNone then Inl (ValueError (field @ '' cannot be Null.''))
          else null_check row fields)"

text \<open>
  \<^verbatim>\<open>row[key] = v\<close> and \<^verbatim>\<open>del row[key]\<close> are only reached for a dict here (the subscript
  before them has succeeded); for any other value they raise \<open>TypeError\<close>.
\<close>

fun setitem :: "pyval \<Rightarrow> string \<Rightarrow> pyval \<Rightarrow> error + pyval" where
  "setitem (PDict al) key v = Inr (PDict (AList.update key v al))"
| "setitem _ key v = Inl TypeError"

fun delitem :: "pyval \<Rightarrow> string \<Rightarrow> error + pyval" where
  "delitem (PDict al) key =
     (if map_of al key = None then Inl (KeyError key) else Inr (PDict (AList.delete key al)))"
| "delitem _ key = Inl TypeError"

text \<open>
  \<^verbatim>\<open>transform_address\<close> mutates its argument, so the model returns the row as it is
  after the call together with the outcome: the returned \<^verbatim>\<open>True\<close> or the exception.
\<close>

definition transform_address :: "pyval \<Rightarrow> pyval \<times> (error + bool)" where
  "transform_address row =
     (case subscript row ''registered_address'' of
        Inl e \<Rightarrow> (row, Inl e)
      | Inr (PStr s) \<Rightarrow>
          (case re_match address_regex s of
             Some result \<Rightarrow>
               (case setitem row ''street_address'' (group result ''street_address'') of
                  Inl e \<Rightarrow> (row, Inl e)
                | Inr row1 \<Rightarrow>
               (case setitem row1 ''city'' (group result ''city'') of
                  Inl e \<Rightarrow> (row1, Inl e)
                | Inr row2 \<Rightarrow>
               (case setitem row2 ''state'' (group result ''state'') of
                  Inl e \<Rightarrow> (row2, Inl e)
                | Inr row3 \<Rightarrow>
               (case setitem row3 ''zip'' (group result ''zip'') of
                  Inl e \<Rightarrow> (row3, Inl e)
                | Inr row4 \<Rightarrow>
               (case delitem row4 ''registered_address'' of
                  Inl e \<Rightarrow> (row4, Inl e)
                | Inr row5 \<Rightarrow> (row5, Inr True))))))
           | None \<Rightarrow>
               (row, Inl (ValueError (''Unknown address format: '' @ replace_newlines (strip s)))))
      | Inr _ \<Rightarrow> (row, Inl TypeError))"

section \<open>The row loop\<close>

text \<open>
  What \<^verbatim>\<open>run\<close> takes from the interpreter and the file system: \<^verbatim>\<open>json.loads\<close>, the
  text \<^verbatim>\<open>str(err)\<close> of an exception, the text of a row inside an f-string, and
  \<^verbatim>\<open>open\<close>, which gives the lines of the file (each with its line terminator) or
  raises.
\<close>

record env =
  loads :: "string \<Rightarrow> error + pyval"
  str_exc :: "error \<Rightarrow> string"
  str_row :: "pyval \<Rightarrow> string"
  open_file :: "string \<Rightarrow> error + string list"

text \<open>
  The local variables of \<^verbatim>\<open>run\<close> and the console. \<open>row\<close> is \<open>None\<close> as long as the
  variable has not been assigned.
\<close>

record state =
  line_num :: nat
  ok_count :: nat
  reject_count :: nat
  row :: "pyval option"
  out :: "string list"

definition ok_line :: "env \<Rightarrow> nat \<Rightarrow> pyval \<Rightarrow> string" where
  \<comment> \<open>\<^verbatim>\<open>f"[{line_num:04d} [OK]: {row}"\<close>\<close>
  "ok_line E n v = ''['' @ fmt04d n @ '' [OK]: '' @ str_row E v"

definition error_line :: "env \<Rightarrow> nat \<Rightarrow> error \<Rightarrow> pyval \<Rightarrow> string" where
  \<comment> \<open>\<^verbatim>\<open>f"[{line_num:04d}][ERROR:] {str(err)}, [DATA]: {row}"\<close>\<close>
  "error_line E n err v =
     ''['' @ fmt04d n @ ''][ERROR:] '' @ str_exc E err @ '', [DATA]: '' @ str_row E v"

text \<open>
  The \<^verbatim>\<open>try\<close> suite for one line: the state it leaves and the exception it raised, if
  any. The assignment to \<open>row\<close> happens only when \<^verbatim>\<open>json.loads\<close> has returned.
\<close>

definition try_suite :: "env \<Rightarrow> bool \<Rightarrow> state \<Rightarrow> string \<Rightarrow> state \<times> error option" where
  "try_suite E print_lines st line =
     (case loads E (strip line) of
        Inl e \<Rightarrow> (st, Some e)
      | Inr v \<Rightarrow>
          (let st1 = st\<lparr>row := Some v\<rparr> in
           case check_schema v VALID_FIELDS of
             Inl e \<Rightarrow> (st1, Some e)
           | Inr _ \<Rightarrow>
          (case null_check v VALID_FIELDS of
             Inl e \<Rightarrow> (st1, Some e)
           | Inr _ \<Rightarrow>
          (case transform_address v of
             (v', Inl e) \<Rightarrow> (st1\<lparr>row := Some v'\<rparr>, Some e)
           | (v', Inr _) \<Rightarrow>
               (let st2 = st1\<lparr>row := Some v'\<rparr>;
                    st3 = (if print_lines
                           then st2\<lparr>out := out st2 @ [ok_line E (line_num st2) v']\<rparr>
                           else st2)
                in (st3\<lparr>ok_count := ok_count st3 + 1\<rparr>, None))))))"

text \<open>
  The \<^verbatim>\<open>except Exception as err\<close> suite. Its \<^verbatim>\<open>print\<close> reads \<open>row\<close>; while the variable
  is unassigned that read raises \<open>UnboundLocalError\<close> (carrying the variable's name
  here), and the exception leaves the handler.
\<close>

definition except_suite :: "env \<Rightarrow> state \<Rightarrow> error \<Rightarrow> state \<times> error option" where
  "except_suite E st err =
     (case row st of
        None \<Rightarrow> (st, Some (UnboundLocalError ''row''))
      | Some v \<Rightarrow>
          (st\<lparr>out := out st @ [error_line E (line_num st) err v],
              reject_count := reject_count st + 1\<rparr>, None))"

text \<open>One iteration: \<^verbatim>\<open>try\<close>, \<^verbatim>\<open>except\<close>, and \<^verbatim>\<open>finally\<close>, which always runs.\<close>

definition loop_body :: "env \<Rightarrow> bool \<Rightarrow> state \<Rightarrow> string \<Rightarrow> state \<times> error option" where
  "loop_body E print_lines st line =
     (let (st1, raised) =
            (case try_suite E print_lines st line of
               (s, None) \<Rightarrow> (s, None)
             | (s, Some err) \<Rightarrow> except_suite E s err)
      in (st1\<lparr>line_num := line_num st1 + 1\<rparr>, raised))"

fun for_lines :: "env \<Rightarrow> bool \<Rightarrow> state \<Rightarrow> string list \<Rightarrow> state \<times> error option" where
  "for_lines E print_lines st [] = (st, None)"
| "for_lines E print_lines st (line # rest) =
     (case loop_body E print_lines st line of
        (st', Some e) \<Rightarrow> (st', Some e)
      | (st', None) \<Rightarrow> for_lines E print_lines st' rest)"

definition initial :: state where
  "initial = \<lparr>line_num = 1, ok_count = 0, reject_count = 0, row = None, out = []\<rparr>"

definition summary :: "state \<Rightarrow> string list" where
  \<comment> \<open>the two \<^verbatim>\<open>print\<close> calls after the loop\<close>
  "summary st =
     [''Read '' @ digits (line_num st - 1) @ '' rows'',
      ''OK rows: '' @ fmt04d (ok_count st) @ '', Rejected rows: '' @ fmt04d (reject_count st)]"

text \<open>
  \<^verbatim>\<open>run\<close>: everything printed, and the exception that left the function, if any.
\<close>

definition run :: "env \<Rightarrow> string \<Rightarrow> bool \<Rightarrow> string list \<times> error option" where
  "run E file_name print_lines =
     (case open_file E file_name of
        Inl e \<Rightarrow> ([], Some e)
      | Inr lines \<Rightarrow>
          (case for_lines E print_lines initial lines of
             (st, Some e) \<Rightarrow> (out st, Some e)
           | (st, None) \<Rightarrow> (out st @ summary st, None)))"

text \<open>The call at module level, which runs when the file is loaded.\<close>

definition file_path :: string where
  "file_path = ''./data/vehicles_complex.json''"

definition main :: "env \<Rightarrow> string list \<times> error option" where
  "main E = run E file_path False"

section \<open>The address format as the specification words it\<close>

text \<open>
  These definitions follow the specification's sentence, not the code: one line of
  street address (letters, digits, spaces, periods only), a line break, then the city
  (letters, digits, spaces), a comma and a space, a two-uppercase-letter state code, a
  space and a five-digit postal code. They are what the regular expression above is
  compared with.
\<close>

definition digit :: "char \<Rightarrow> bool" where
  "digit c \<longleftrightarrow> c \<in> set ''0123456789''"

definition upper_letter :: "char \<Rightarrow> bool" where
  "upper_letter c \<longleftrightarrow> c \<in> set ''ABCDEFGHIJKLMNOPQRSTUVWXYZ''"

definition lower_letter :: "char \<Rightarrow> bool" where
  "lower_letter c \<longleftrightarrow> c \<in> set ''abcdefghijklmnopqrstuvwxyz''"

definition street_char :: "char \<Rightarrow> bool" where
  "street_char c \<longleftrightarrow>
     lower_letter c \<or> upper_letter c \<or> digit c \<or> c = CHR '' '' \<or> c = CHR ''.''"

definition city_char :: "char \<Rightarrow> bool" where
  "city_char c \<longleftrightarrow> lower_letter c \<or> upper_letter c \<or> digit c \<or> c = CHR '' ''"

definition two_line_pattern :: "string \<Rightarrow> string \<Rightarrow> string \<Rightarrow> string \<Rightarrow> string \<Rightarrow> bool" where
  \<comment> \<open>\<open>m\<close> is an address of the expected shape with these four parts\<close>
  "two_line_pattern street city st zipcode m \<longleftrightarrow>
     street \<noteq> [] \<and> list_all street_char street \<and>
     city \<noteq> [] \<and> list_all city_char city \<and>
     length st = 2 \<and> list_all upper_letter st \<and>
     length zipcode = 5 \<and> list_all digit zipcode \<and>
     m = street @ [LF] @ city @ '', '' @ st @ '' '' @ zipcode"

definition begins_with_address :: "string \<Rightarrow> bool" where
  \<comment> \<open>some prefix of \<open>s\<close> is an address of the expected shape\<close>
  "begins_with_address s \<longleftrightarrow>
     (\<exists>street city st zipcode m rest. two_line_pattern street city st zipcode m \<and> s = m @ rest)"

definition address_groups :: "string \<Rightarrow> string \<Rightarrow> string \<Rightarrow> string \<Rightarrow> groups" where
  \<comment> \<open>the four named groups of a match, most recent first\<close>
  "address_groups street city st zipcode =
     [(''zip'', zipcode), (''state'', st), (''city'', city), (''street_address'', street)]"

definition structured ::
  "string \<Rightarrow> string \<Rightarrow> string \<Rightarrow> string \<Rightarrow> (string \<times> pyval) list \<Rightarrow> (string \<times> pyval) list" where
  \<comment> \<open>the record with the address field replaced by the four structured fields\<close>
  "structured street city st zipcode al =
     AList.delete ''registered_address''
       (AList.update ''zip'' (PStr zipcode)
         (AList.update ''state'' (PStr st)
           (AList.update ''city'' (PStr city)
             (AList.update ''street_address'' (PStr street) al))))"

section \<open>Example rows and an example interpreter\<close>

text \<open>
  The rows of the specification's four scenarios, a row whose address is a number, the
  JSON text of each, and an environment that decodes exactly these texts. They are the
  concrete inputs at which the theorems below are instantiated; the theorems themselves
  hold for every environment.
\<close>

definition main_st :: string where
  "main_st = ''123 Main St'' @ [LF] @ ''Springfield, IL 62704''"

definition sample_row :: "(string \<times> pyval) list \<Rightarrow> pyval \<Rightarrow> (string \<times> pyval) list" where
  "sample_row year_items address =
     [(''license_plate'', PStr ''ABC123''), (''make_model'', PStr ''Ford Focus'')] @ year_items @
     [(''registered_name'', PStr ''Jane Doe''), (''registered_address'', address),
      (''registered_date'', PStr ''2023-01-01'')]"

definition row_ok :: "(string \<times> pyval) list" where
  "row_ok = sample_row [(''year'', PInt 2020)] (PStr main_st)"

definition row_null :: "(string \<times> pyval) list" where
  "row_null = sample_row [(''year'', PInt 2020)] PNone"

definition row_no_year :: "(string \<times> pyval) list" where
  "row_no_year = sample_row [] (PStr main_st)"

definition row_no_year_null :: "(string \<times> pyval) list" where
  "row_no_year_null = sample_row [] PNone"

definition row_flat :: "(string \<times> pyval) list" where
  "row_flat = sample_row [(''year'', PInt 2020)] (PStr ''123 Main St, Springfield, IL 62704'')"

definition row_number :: "(string \<times> pyval) list" where
  "row_number = sample_row [(''year'', PInt 2020)] (PInt 62704)"

definition q :: "string \<Rightarrow> string" where
  \<comment> \<open>a JSON string literal without escapes\<close>
  "q s = CHR 0x22 # s @ [CHR 0x22]"

definition sample_line :: "string \<Rightarrow> string \<Rightarrow> string" where
  "sample_line year_member address_text =
     ''{'' @ q ''license_plate'' @ '':'' @ q ''ABC123'' @ '','' @
     q ''make_model'' @ '':'' @ q ''Ford Focus'' @ '','' @ year_member @
     q ''registered_name'' @ '':'' @ q ''Jane Doe'' @ '','' @
     q ''registered_address'' @ '':'' @ address_text @ '','' @
     q ''registered_date'' @ '':'' @ q ''2023-01-01'' @ ''}'' @ [LF]"

definition main_st_text :: string where
  \<comment> \<open>the address of \<open>main_st\<close> as JSON writes it, the line break escaped\<close>
  "main_st_text = q (''123 Main St'' @ [CHR 0x5C] @ ''nSpringfield, IL 62704'')"

definition line_ok :: string where
  "line_ok = sample_line (q ''year'' @ '':2020,'') main_st_text"

definition line_null :: string where
  "line_null = sample_line (q ''year'' @ '':2020,'') ''null''"

definition line_no_year :: string where
  "line_no_year = sample_line [] main_st_text"

definition line_no_year_null :: string where
  "line_no_year_null = sample_line [] ''null''"

definition line_flat :: string where
  "line_flat = sample_line (q ''year'' @ '':2020,'') (q ''123 Main St, Springfield, IL 62704'')"

definition line_number :: string where
  "line_number = sample_line (q ''year'' @ '':2020,'') ''62704''"

definition line_bad :: string where
  "line_bad = ''not json'' @ [LF]"

definition six_lines :: "string list" where
  \<comment> \<open>a file with an accepted line followed by five lines that are rejected\<close>
  "six_lines = [line_ok, line_null, line_no_year, line_flat, line_number, line_bad]"

definition sample_loads :: "string \<Rightarrow> error + pyval" where
  "sample_loads text =
     (case map_of [(strip line_ok, row_ok), (strip line_null, row_null),
                   (strip line_no_year, row_no_year),
                   (strip line_no_year_null, row_no_year_null), (strip line_flat, row_flat),
                   (strip line_number, row_number)] text of
        Some al \<Rightarrow> Inr (PDict al)
      | None \<Rightarrow> Inl (JSONDecodeError ''Expecting value: line 1 column 1 (char 0)''))"

definition sample_str_exc :: "error \<Rightarrow> string" where
  "sample_str_exc e =
     (case e of
        KeyError m \<Rightarrow> CHR 0x27 # m @ [CHR 0x27]
      | ValueError m \<Rightarrow> m
      | TypeError \<Rightarrow> ''expected string or bytes-like object''
      | JSONDecodeError m \<Rightarrow> m
      | UnboundLocalError m \<Rightarrow> m
      | OSError m \<Rightarrow> m)"

definition sample_str_row :: "pyval \<Rightarrow> string" where
  "sample_str_row v =
     (case v of
        PDict al \<Rightarrow> ''{'' @ concat (map (\<lambda>(k, x). k @ '';'') al) @ ''}''
      | _ \<Rightarrow> ''?'')"

definition sample_open :: "string list \<Rightarrow> string \<Rightarrow> error + string list" where
  \<comment> \<open>a file system holding one file\<close>
  "sample_open lines file_name =
     (if file_name = ''./data/vehicles_complex.json'' then Inr lines
      else Inl (OSError ''No such file or directory''))"

definition sample_env :: "string list \<Rightarrow> env" where
  "sample_env lines =
     \<lparr>loads = sample_loads, str_exc = sample_str_exc, str_row = sample_str_row,
      open_file = sample_open lines\<rparr>"

section \<open>The regular expression against the specified format\<close>

lemma concat_map_all_Nil: "(\<And>x. x \<in> set xs \<Longrightarrow> f x = []) \<Longrightarrow> concat (map f xs) = []"
  by (induction xs) auto

lemma ms_group_plus:
  "ms (Group n (Plus cs)) s g =
     map (\<lambda>k. (drop k s, (n, take k s) # g)) (rev [1 ..< Suc (length (takeWhile (in_set cs) s))])"
proof -
  have "\<And>k. k \<in> set (rev [1 ..< Suc (length (takeWhile (in_set cs) s))]) \<Longrightarrow> length s - length (drop k s) = k"
    using length_takeWhile_le [of "in_set cs" s] by auto
  then show ?thesis by (simp add: comp_def cong: map_cong)
qed

lemma ms_lit_seq:
  "ms (Seq (Lit a) r) s g = (case s of [] \<Rightarrow> [] | c # t \<Rightarrow> if c = a then ms r t g else [])"
  by (simp split: list.splits)

lemma ms_plus_lit:
  assumes na: "\<not> in_set cs a"
  shows "ms (Seq (Group n (Plus cs)) (Seq (Lit a) r)) s g =
     (if takeWhile (in_set cs) s \<noteq> [] \<and> dropWhile (in_set cs) s \<noteq> [] \<and> hd (dropWhile (in_set cs) s) = a
      then ms r (tl (dropWhile (in_set cs) s)) ((n, takeWhile (in_set cs) s) # g)
      else [])"
proof -
  define N where "N = length (takeWhile (in_set cs) s)"
  define f where "f = (\<lambda>k. ms (Seq (Lit a) r) (drop k s) ((n, take k s) # g))"
  have unfold: "ms (Seq (Group n (Plus cs)) (Seq (Lit a) r)) s g = concat (map f (rev [1 ..< Suc N]))"
    unfolding ms.simps(4) [of "Group n (Plus cs)"] ms_group_plus N_def f_def
    by (simp add: comp_def)
  have low: "f k = []" if "k < N" for k
  proof -
    have "k < length s" using that length_takeWhile_le [of "in_set cs" s] by (simp add: N_def)
    then have d: "drop k s = s ! k # drop (Suc k) s" by (simp add: Cons_nth_drop_Suc)
    have "s ! k = takeWhile (in_set cs) s ! k" using that by (simp add: N_def takeWhile_nth)
    then have "in_set cs (s ! k)"
      using that nth_mem [of k "takeWhile (in_set cs) s"] set_takeWhileD [of "s ! k" "in_set cs" s]
      by (simp add: N_def)
    then have "s ! k \<noteq> a" using na by auto
    then show ?thesis unfolding f_def ms_lit_seq d by simp
  qed
  show ?thesis
  proof (cases "N = 0")
    case True
    then show ?thesis unfolding unfold by (simp add: N_def)
  next
    case False
    then have "rev [1 ..< Suc N] = N # rev [1 ..< N]" by simp
    moreover have "concat (map f (rev [1 ..< N])) = []"
      by (rule concat_map_all_Nil) (simp add: low)
    ultimately have "ms (Seq (Group n (Plus cs)) (Seq (Lit a) r)) s g = f N"
      unfolding unfold by simp
    also have "f N = ms (Seq (Lit a) r) (dropWhile (in_set cs) s) ((n, takeWhile (in_set cs) s) # g)"
      unfolding f_def N_def by (simp only: dropWhile_eq_drop [symmetric] takeWhile_eq_take [symmetric])
    also have "\<dots> = (case dropWhile (in_set cs) s of [] \<Rightarrow> []
        | c # t \<Rightarrow> if c = a then ms r t ((n, takeWhile (in_set cs) s) # g) else [])"
      by (rule ms_lit_seq)
    finally have eq: "ms (Seq (Group n (Plus cs)) (Seq (Lit a) r)) s g =
       (case dropWhile (in_set cs) s of [] \<Rightarrow> []
        | c # t \<Rightarrow> if c = a then ms r t ((n, takeWhile (in_set cs) s) # g) else [])" .
    have ne: "takeWhile (in_set cs) s \<noteq> []" using False by (simp add: N_def)
    show ?thesis
    proof (cases "dropWhile (in_set cs) s")
      case Nil
      show ?thesis unfolding eq Nil by simp
    next
      case (Cons c t)
      show ?thesis unfolding eq Cons using ne by simp
    qed
  qed
qed

lemma char_eq_code: "c = d \<longleftrightarrow> (of_char c :: nat) = of_char d"
  by simp

lemma digit_rng: "in_item (Rng (CHR ''0'') (CHR ''9'')) c \<longleftrightarrow> digit c"
  unfolding digit_def by (simp add: char_eq_code [of c]) arith

lemma upper_rng: "in_item (Rng (CHR ''A'') (CHR ''Z'')) c \<longleftrightarrow> upper_letter c"
  unfolding upper_letter_def by (simp add: char_eq_code [of c]) arith

lemma lower_rng: "in_item (Rng (CHR ''a'') (CHR ''z'')) c \<longleftrightarrow> lower_letter c"
  unfolding lower_letter_def by (simp add: char_eq_code [of c]) arith

lemma in_street_set: "in_set street_set = street_char"
  by (rule ext) (simp only: in_set_def street_set_def street_char_def list_ex_Nil_iff list_ex_Cons_iff
      digit_rng upper_rng lower_rng in_item.simps(1) simp_thms)

lemma in_city_set: "in_set city_set = city_char"
  by (rule ext) (simp only: in_set_def city_set_def city_char_def list_ex_Nil_iff list_ex_Cons_iff
      digit_rng upper_rng lower_rng in_item.simps(1) simp_thms)

lemma in_state_set: "in_set state_set = upper_letter"
  by (rule ext) (simp only: in_set_def state_set_def list_ex_Nil_iff list_ex_Cons_iff upper_rng simp_thms)

lemma in_zip_set: "in_set zip_set = digit"
  by (rule ext) (simp only: in_set_def zip_set_def list_ex_Nil_iff list_ex_Cons_iff digit_rng simp_thms)

lemma LF_not_street: "\<not> street_char LF"
  by (simp add: street_char_def lower_letter_def upper_letter_def digit_def LF_def)

lemma comma_not_city: "\<not> city_char (CHR '','')"
  by (simp add: city_char_def lower_letter_def upper_letter_def digit_def)

lemma ms_rep_seq:
  "ms (Seq (Group n (Rep k cs)) r) s g =
     (if k \<le> length s \<and> list_all (in_set cs) (take k s)
      then ms r (drop k s) ((n, take k s) # g) else [])"
  by auto

lemma ms_group_rep:
  "ms (Group n (Rep k cs)) s g =
     (if k \<le> length s \<and> list_all (in_set cs) (take k s)
      then [(drop k s, (n, take k s) # g)] else [])"
  by simp

lemma ms_address_complete:
  assumes "two_line_pattern street city st zipcode m"
  shows "ms address_regex (m @ rest) g = [(rest, address_groups street city st zipcode @ g)]"
proof -
  from assms have
    street: "street \<noteq> []" "\<And>c. c \<in> set street \<Longrightarrow> street_char c" and
    city: "city \<noteq> []" "\<And>c. c \<in> set city \<Longrightarrow> city_char c" and
    st: "length st = 2" "list_all upper_letter st" and
    zipcode: "length zipcode = 5" "list_all digit zipcode" and
    m: "m = street @ LF # city @ CHR '','' # CHR '' '' # st @ CHR '' '' # zipcode"
    by (simp_all add: two_line_pattern_def list_all_iff)
  let ?t1 = "city @ CHR '','' # CHR '' '' # st @ CHR '' '' # zipcode @ rest"
  let ?t2 = "CHR '' '' # st @ CHR '' '' # zipcode @ rest"
  have s: "m @ rest = street @ LF # ?t1" by (simp add: m)
  have tw1: "takeWhile street_char (m @ rest) = street"
    unfolding s using street(2) LF_not_street by (simp add: takeWhile_tail)
  have dw1: "dropWhile street_char (m @ rest) = LF # ?t1"
    unfolding s using street(2) LF_not_street by (simp add: dropWhile_append3)
  have tw2: "takeWhile city_char ?t1 = city"
    using city(2) comma_not_city by (simp add: takeWhile_tail)
  have dw2: "dropWhile city_char ?t1 = CHR '','' # ?t2"
    using city(2) comma_not_city by (simp add: dropWhile_append3)
  show ?thesis
    unfolding address_regex_def
    apply (subst ms_plus_lit)
     apply (simp add: in_street_set LF_not_street)
    apply (simp only: in_street_set tw1 dw1 street(1) list.sel not_False_eq_True simp_thms if_True)
    apply (subst ms_plus_lit)
     apply (simp add: in_city_set comma_not_city)
    apply (simp only: in_city_set tw2 dw2 city(1) list.sel simp_thms if_True)
    apply (simp only: ms_lit_seq ms_rep_seq ms_group_rep list.case if_True in_state_set in_zip_set)
    using st zipcode apply (simp add: address_groups_def)
    done
qed


lemma ms_address_sound:
  assumes ne: "ms address_regex s g \<noteq> []"
  shows "\<exists>street city st zipcode m rest.
           two_line_pattern street city st zipcode m \<and> s = m @ rest"
proof -
  let ?r1 = "Seq (Group ''city'' (Plus city_set))
    (Seq (Lit (CHR '',''))
    (Seq (Lit (CHR '' ''))
    (Seq (Group ''state'' (Rep 2 state_set))
    (Seq (Lit (CHR '' ''))
         (Group ''zip'' (Rep 5 zip_set))))))"
  let ?r2 = "Seq (Lit (CHR '' ''))
    (Seq (Group ''state'' (Rep 2 state_set))
    (Seq (Lit (CHR '' ''))
         (Group ''zip'' (Rep 5 zip_set))))"
  define street where "street = takeWhile street_char s"
  define d1 where "d1 = dropWhile street_char s"
  have step1: "ms address_regex s g =
      (if street \<noteq> [] \<and> d1 \<noteq> [] \<and> hd d1 = LF
       then ms ?r1 (tl d1) ((''street_address'', street) # g) else [])"
    unfolding address_regex_def street_def d1_def
    by (subst ms_plus_lit) (simp_all only: in_street_set LF_not_street not_False_eq_True)
  with ne have street: "street \<noteq> []" and d1: "d1 \<noteq> []" "hd d1 = LF"
    and ne1: "ms ?r1 (tl d1) ((''street_address'', street) # g) \<noteq> []"
    by (auto simp del: ms.simps split: if_splits)
  define t1 where "t1 = tl d1"
  define city where "city = takeWhile city_char t1"
  define d2 where "d2 = dropWhile city_char t1"
  have step2: "ms ?r1 t1 g' =
      (if city \<noteq> [] \<and> d2 \<noteq> [] \<and> hd d2 = CHR '',''
       then ms ?r2 (tl d2) ((''city'', city) # g') else [])" for g'
    unfolding city_def d2_def
    by (subst ms_plus_lit) (simp_all only: in_city_set comma_not_city not_False_eq_True)
  have "ms ?r1 t1 ((''street_address'', street) # g) \<noteq> []"
    unfolding t1_def by (rule ne1)
  then have city: "city \<noteq> []" and d2: "d2 \<noteq> []" "hd d2 = CHR '',''"
    and ne2: "ms ?r2 (tl d2) ((''city'', city) # (''street_address'', street) # g) \<noteq> []"
    unfolding step2 by (auto simp del: ms.simps split: if_splits)
  from ne2 obtain t3 where t3: "tl d2 = CHR '' '' # t3"
    and st: "2 \<le> length t3" "list_all upper_letter (take 2 t3)"
    and t4': "\<exists>t4. drop 2 t3 = CHR '' '' # t4 \<and> 5 \<le> length t4 \<and> list_all digit (take 5 t4)"
    unfolding ms_lit_seq ms_rep_seq ms_group_rep in_state_set in_zip_set
    by (auto split: list.splits if_splits)
  then obtain t4 where t4: "drop 2 t3 = CHR '' '' # t4" "5 \<le> length t4" "list_all digit (take 5 t4)"
    by blast
  have "s = street @ d1" by (simp add: street_def d1_def)
  also have "d1 = LF # t1" using d1 by (cases d1) (simp_all add: t1_def)
  also have "t1 = city @ d2" by (simp add: city_def d2_def)
  also have "d2 = CHR '','' # CHR '' '' # t3" using d2 t3 by (cases d2) simp_all
  also have "t3 = take 2 t3 @ drop 2 t3" by simp
  also have "drop 2 t3 = CHR '' '' # take 5 t4 @ drop 5 t4" using t4(1) by simp
  finally have s: "s = (street @ [LF] @ city @ '', '' @ take 2 t3 @ '' '' @ take 5 t4) @ drop 5 t4"
    by simp
  have "list_all street_char street" "list_all city_char city"
    by (auto simp: street_def city_def list_all_iff dest: set_takeWhileD)
  then have "two_line_pattern street city (take 2 t3) (take 5 t4)
      (street @ [LF] @ city @ '', '' @ take 2 t3 @ '' '' @ take 5 t4)"
    using street city st t4 by (simp add: two_line_pattern_def)
  with s show ?thesis by blast
qed

section \<open>Schema check and null check\<close>

lemma null_check_dict_agree:
  "\<forall>f\<in>set required_fields. map_of al f = map_of al' f \<Longrightarrow>
     null_check (PDict al) required_fields = null_check (PDict al') required_fields"
  by (induction required_fields) (simp_all split: option.splits)

lemma try_suite_schema_error:
  "loads E (strip line) = Inr v \<Longrightarrow> check_schema v VALID_FIELDS = Inl e \<Longrightarrow>
     try_suite E print_lines st line = (st\<lparr>row := Some v\<rparr>, Some e)"
  by (simp add: try_suite_def)

lemma sample_loads_no_year_null:
  "loads (sample_env []) (strip line_no_year_null) = Inr (PDict row_no_year_null)"
  by code_simp

text \<open>
  C3. On a record (a dict) in which some required field is absent, \<open>check_schema\<close>
  raises \<open>KeyError\<close> with the message \<^verbatim>\<open>Missing required field: <field>\<close> for the first
  absent field in the order of the list: the field \<open>f\<close> all of whose predecessors
  \<open>before\<close> are present. It stops there, whatever is absent among the fields after \<open>f\<close>.
  Presence is key existence: a record holding every key passes, also when a value is
  null. The declared order is that of \<open>VALID_FIELDS\<close>.
\<close>

theorem check_schema_first_missing:
  "(required_fields = before @ f # after \<and> (\<forall>b\<in>set before. map_of al b \<noteq> None) \<and>
      map_of al f = None
      \<longrightarrow> check_schema (PDict al) required_fields =
            Inl (KeyError (''Missing required field: '' @ f)))
   \<and> ((\<forall>b\<in>set required_fields. map_of al b \<noteq> None)
      \<longrightarrow> check_schema (PDict al) required_fields = Inr True)
   \<and> VALID_FIELDS = [''license_plate'', ''make_model'', ''year'', ''registered_name'',
                     ''registered_address'', ''registered_date'']"
proof (intro conjI impI)
  assume "required_fields = before @ f # after \<and> (\<forall>b\<in>set before. map_of al b \<noteq> None) \<and>
      map_of al f = None"
  then show "check_schema (PDict al) required_fields =
      Inl (KeyError (''Missing required field: '' @ f))"
    by (induction before arbitrary: required_fields) auto
next
  assume "\<forall>b\<in>set required_fields. map_of al b \<noteq> None"
  then show "check_schema (PDict al) required_fields = Inr True"
    by (induction required_fields) auto
next
  show "VALID_FIELDS = [''license_plate'', ''make_model'', ''year'', ''registered_name'',
                     ''registered_address'', ''registered_date'']"
    by (rule VALID_FIELDS_def)
qed

theorem check_schema_first_missing_witness:
  "check_schema (PDict row_no_year_null) VALID_FIELDS =
     Inl (KeyError ''Missing required field: year'')
   \<and> map_of row_null ''registered_address'' = Some PNone
   \<and> check_schema (PDict row_null) VALID_FIELDS = Inr True"
proof -
  have h1: "VALID_FIELDS = [''license_plate'', ''make_model''] @ ''year'' #
        [''registered_name'', ''registered_address'', ''registered_date''] \<and>
      (\<forall>b\<in>set [''license_plate'', ''make_model'']. map_of row_no_year_null b \<noteq> None) \<and>
      map_of row_no_year_null ''year'' = None"
    by (simp add: VALID_FIELDS_def row_no_year_null_def sample_row_def)
  have h2: "\<forall>b\<in>set VALID_FIELDS. map_of row_null b \<noteq> None"
    by (simp add: VALID_FIELDS_def row_null_def sample_row_def)
  have h3: "map_of row_null ''registered_address'' = Some PNone"
    by (simp add: row_null_def sample_row_def)
  from h1 h2 h3
    check_schema_first_missing [of VALID_FIELDS "[''license_plate'', ''make_model'']" "''year''"
      "[''registered_name'', ''registered_address'', ''registered_date'']" row_no_year_null]
    check_schema_first_missing [of VALID_FIELDS "[]" "[]" "[]" row_null]
  show ?thesis by simp
qed

text \<open>
  C4. On a record in which the required field \<open>f\<close> is null and every required field
  before it has a value that is not null, \<open>null_check\<close> raises \<open>ValueError\<close> with the
  message \<^verbatim>\<open><field> cannot be Null.\<close> for \<open>f\<close>. Its outcome depends only on the
  values of the fields in the list, so a field outside the list is never checked. In
  \<^verbatim>\<open>run\<close> the null check comes after the schema check: when the schema check raises,
  that exception is the outcome of the row and \<open>null_check\<close> is not reached.
\<close>

theorem null_check_first_null:
  "(required_fields = before @ f # after \<and>
      (\<forall>b\<in>set before. \<exists>v. map_of al b = Some v \<and> v \<noteq> PNone) \<and> map_of al f = Some PNone
      \<longrightarrow> null_check (PDict al) required_fields = Inl (ValueError (f @ '' cannot be Null.'')))
   \<and> ((\<forall>b\<in>set required_fields. map_of al b = map_of al' b)
      \<longrightarrow> null_check (PDict al) required_fields = null_check (PDict al') required_fields)
   \<and> (loads E (strip line) = Inr v \<and> check_schema v VALID_FIELDS = Inl e
      \<longrightarrow> try_suite E print_lines st line = (st\<lparr>row := Some v\<rparr>, Some e))"
proof (intro conjI impI)
  assume "required_fields = before @ f # after \<and>
      (\<forall>b\<in>set before. \<exists>v. map_of al b = Some v \<and> v \<noteq> PNone) \<and> map_of al f = Some PNone"
  then show "null_check (PDict al) required_fields = Inl (ValueError (f @ '' cannot be Null.''))"
    by (induction before arbitrary: required_fields) auto
next
  assume "\<forall>b\<in>set required_fields. map_of al b = map_of al' b"
  then show "null_check (PDict al) required_fields = null_check (PDict al') required_fields"
    by (rule null_check_dict_agree)
next
  assume "loads E (strip line) = Inr v \<and> check_schema v VALID_FIELDS = Inl e"
  then show "try_suite E print_lines st line = (st\<lparr>row := Some v\<rparr>, Some e)"
    by (simp add: try_suite_schema_error)
qed

theorem null_check_first_null_witness:
  "null_check (PDict row_null) VALID_FIELDS =
     Inl (ValueError ''registered_address cannot be Null.'')
   \<and> null_check (PDict (row_null @ [(''notes'', PNone)])) VALID_FIELDS =
       null_check (PDict row_null) VALID_FIELDS
   \<and> try_suite (sample_env []) False initial line_no_year_null =
       (initial\<lparr>row := Some (PDict row_no_year_null)\<rparr>,
        Some (KeyError ''Missing required field: year''))"
proof -
  have h1: "VALID_FIELDS = [''license_plate'', ''make_model'', ''year'', ''registered_name''] @
        ''registered_address'' # [''registered_date''] \<and>
      (\<forall>b\<in>set [''license_plate'', ''make_model'', ''year'', ''registered_name''].
         \<exists>v. map_of row_null b = Some v \<and> v \<noteq> PNone) \<and>
      map_of row_null ''registered_address'' = Some PNone"
    by (simp add: VALID_FIELDS_def row_null_def sample_row_def)
  have h2: "\<forall>b\<in>set VALID_FIELDS.
      map_of (row_null @ [(''notes'', PNone)]) b = map_of row_null b"
    by (simp add: VALID_FIELDS_def row_null_def sample_row_def)
  have h3: "loads (sample_env []) (strip line_no_year_null) = Inr (PDict row_no_year_null) \<and>
      check_schema (PDict row_no_year_null) VALID_FIELDS =
        Inl (KeyError ''Missing required field: year'')"
    by (simp add: sample_loads_no_year_null VALID_FIELDS_def row_no_year_null_def sample_row_def)
  from h1 h2 h3
    null_check_first_null [of VALID_FIELDS
      "[''license_plate'', ''make_model'', ''year'', ''registered_name'']"
      "''registered_address''" "[''registered_date'']" row_null row_null
      "sample_env []" line_no_year_null "PDict row_no_year_null"
      "KeyError ''Missing required field: year''" False initial]
    null_check_first_null [of VALID_FIELDS "[]" "[]" "[]"
      "row_null @ [(''notes'', PNone)]" row_null
      "sample_env []" line_no_year_null "PDict row_no_year_null"
      "KeyError ''Missing required field: year''" False initial]
  show ?thesis by simp
qed

section \<open>Address parsing\<close>

lemma re_match_address:
  "two_line_pattern street city st zipcode m \<Longrightarrow>
     re_match address_regex (m @ rest) = Some (address_groups street city st zipcode)"
  using ms_address_complete [of street city st zipcode m rest "[]"]
  by (simp add: re_match_def)

lemma re_match_address_iff:
  "re_match address_regex s \<noteq> None \<longleftrightarrow> begins_with_address s"
proof
  assume "re_match address_regex s \<noteq> None"
  then have "ms address_regex s [] \<noteq> []"
    by (auto simp: re_match_def)
  then show "begins_with_address s"
    unfolding begins_with_address_def by (rule ms_address_sound)
next
  assume "begins_with_address s"
  then show "re_match address_regex s \<noteq> None"
    unfolding begins_with_address_def by (auto simp: re_match_address)
qed

lemma transform_address_match:
  assumes "map_of al ''registered_address'' = Some (PStr (m @ rest))"
    and "two_line_pattern street city st zipcode m"
  shows "transform_address (PDict al) = (PDict (structured street city st zipcode al), Inr True)"
  using assms
  by (simp add: transform_address_def re_match_address group_def address_groups_def
      structured_def update_conv')

lemma transform_address_no_match:
  assumes "map_of al ''registered_address'' = Some (PStr s)"
    and "\<not> begins_with_address s"
  shows "transform_address (PDict al) =
     (PDict al, Inl (ValueError (''Unknown address format: '' @ replace_newlines (strip s))))"
proof -
  from assms(2) have "re_match address_regex s = None"
    using re_match_address_iff [of s] by simp
  with assms(1) show ?thesis
    by (simp add: transform_address_def)
qed

lemma transform_address_not_str:
  assumes "map_of al ''registered_address'' = Some v" and "\<forall>s. v \<noteq> PStr s"
  shows "transform_address (PDict al) = (PDict al, Inl TypeError)"
  using assms by (cases v) (simp_all add: transform_address_def)

lemma structured_fields:
  "map_of (structured street city st zipcode al) ''registered_address'' = None"
  "map_of (structured street city st zipcode al) ''street_address'' = Some (PStr street)"
  "map_of (structured street city st zipcode al) ''city'' = Some (PStr city)"
  "map_of (structured street city st zipcode al) ''state'' = Some (PStr st)"
  "map_of (structured street city st zipcode al) ''zip'' = Some (PStr zipcode)"
  by (simp_all add: structured_def update_conv' delete_conv')

lemma structured_other:
  "k \<notin> {''registered_address'', ''street_address'', ''city'', ''state'', ''zip''} \<Longrightarrow>
     map_of (structured street city st zipcode al) k = map_of al k"
  by (simp add: structured_def update_conv' delete_conv')

lemma transform_address_failure_unchanged:
  "snd (transform_address r) = Inl e \<Longrightarrow> fst (transform_address r) = r"
proof (cases "subscript r ''registered_address''")
  case (Inl a)
  then show ?thesis by (simp add: transform_address_def)
next
  case (Inr v)
  then obtain al where r: "r = PDict al" and v: "map_of al ''registered_address'' = Some v"
    by (cases r) (auto split: option.splits)
  assume fail: "snd (transform_address r) = Inl e"
  show ?thesis
  proof (cases "\<exists>s. v = PStr s")
    case True
    then obtain s where s: "v = PStr s" by blast
    show ?thesis
    proof (cases "begins_with_address s")
      case True
      then obtain street city st zipcode m rest where
        "two_line_pattern street city st zipcode m" "s = m @ rest"
        unfolding begins_with_address_def by blast
      with v s r fail show ?thesis
        by (simp add: transform_address_match)
    next
      case False
      with v s r show ?thesis by (simp add: transform_address_no_match)
    qed
  next
    case False
    with v r show ?thesis by (simp add: transform_address_not_str)
  qed
qed

lemma strip_decompose:
  "\<exists>a b. s = a @ strip s @ b \<and> list_all isspace a \<and> list_all isspace b"
proof -
  define d where "d = dropWhile isspace s"
  have "rev d = takeWhile isspace (rev d) @ dropWhile isspace (rev d)" by simp
  then have "d = rev (dropWhile isspace (rev d)) @ rev (takeWhile isspace (rev d))"
    by (metis rev_append rev_rev_ident)
  then have d: "d = strip s @ rev (takeWhile isspace (rev d))"
    by (simp add: strip_def d_def)
  have "s = takeWhile isspace s @ d" by (simp add: d_def)
  with d have "s = takeWhile isspace s @ strip s @ rev (takeWhile isspace (rev d))" by simp
  moreover have "list_all isspace (takeWhile isspace s)"
    by (auto simp: list_all_iff dest: set_takeWhileD)
  moreover have "list_all isspace (rev (takeWhile isspace (rev d)))"
    by (auto simp: list_all_iff dest: set_takeWhileD)
  ultimately show ?thesis by blast
qed

lemma strip_ends:
  assumes "strip s \<noteq> []"
  shows "\<not> isspace (hd (strip s)) \<and> \<not> isspace (last (strip s))"
proof -
  define d where "d = dropWhile isspace s"
  define e where "e = dropWhile isspace (rev d)"
  have st: "strip s = rev e" by (simp add: strip_def d_def e_def)
  with assms have e: "e \<noteq> []" by simp
  then have "\<not> isspace (hd e)" unfolding e_def by (rule hd_dropWhile)
  then have last: "\<not> isspace (last (strip s))" using e by (simp add: st last_rev)
  have "rev d = takeWhile isspace (rev d) @ e" by (simp add: e_def)
  then have "d = rev e @ rev (takeWhile isspace (rev d))"
    by (metis rev_append rev_rev_ident)
  then have "hd d = hd (rev e)" using e by (metis hd_append2 rev_is_Nil_conv)
  moreover have "d \<noteq> []" using \<open>d = rev e @ _\<close> e by auto
  then have "\<not> isspace (hd d)" unfolding d_def by (rule hd_dropWhile)
  ultimately show ?thesis using last by (simp add: st)
qed

lemma required_all_ok:
  "\<forall>f\<in>set required_fields. \<exists>v. map_of al f = Some v \<and> v \<noteq> PNone \<Longrightarrow>
     check_schema (PDict al) required_fields = Inr True \<and>
     null_check (PDict al) required_fields = Inr True"
  by (induction required_fields) auto

lemma loop_body_accept:
  assumes "loads E (strip line) = Inr v"
    and "check_schema v VALID_FIELDS = Inr a" and "null_check v VALID_FIELDS = Inr b"
    and "transform_address v = (v', Inr c)"
  shows "loop_body E print_lines st line =
     (st\<lparr>line_num := line_num st + 1, ok_count := ok_count st + 1, row := Some v',
         out := out st @ (if print_lines then [ok_line E (line_num st) v'] else [])\<rparr>, None)"
  using assms by (simp add: loop_body_def try_suite_def Let_def)

lemma loop_body_reject:
  assumes "loads E (strip line) = Inr v"
    and "check_schema v VALID_FIELDS = Inl e \<or>
         check_schema v VALID_FIELDS = Inr a \<and> null_check v VALID_FIELDS = Inl e \<or>
         check_schema v VALID_FIELDS = Inr a \<and> null_check v VALID_FIELDS = Inr b \<and>
           transform_address v = (v, Inl e)"
  shows "loop_body E print_lines st line =
     (st\<lparr>line_num := line_num st + 1, reject_count := reject_count st + 1, row := Some v,
         out := out st @ [error_line E (line_num st) e v]\<rparr>, None)"
  using assms by (auto simp add: loop_body_def try_suite_def except_suite_def Let_def)

text \<open>
  C2. A record holding the six required fields with values that are not null, whose
  address begins with text of the specified shape (street, line break, city, comma and
  space, state code, space, five digits), is accepted: both checks return \<^verbatim>\<open>True\<close>,
  \<open>transform_address\<close> returns \<^verbatim>\<open>True\<close>, the iteration of \<^verbatim>\<open>run\<close> counts the row as OK and
  raises nothing. The record then has no \<open>registered_address\<close> key, and
  \<open>street_address\<close>, \<open>city\<close>, \<open>state\<close> and \<open>zip\<close> are the four parts as strings, the
  postal code digit for digit.
\<close>

theorem accepted_row:
  assumes "\<forall>f\<in>set VALID_FIELDS. \<exists>v. map_of al f = Some v \<and> v \<noteq> PNone"
    and "map_of al ''registered_address'' = Some (PStr (m @ rest))"
    and "two_line_pattern street city state_code zipcode m"
    and "loads E (strip line) = Inr (PDict al)"
  shows "\<exists>al'. check_schema (PDict al) VALID_FIELDS = Inr True
      \<and> null_check (PDict al) VALID_FIELDS = Inr True
      \<and> transform_address (PDict al) = (PDict al', Inr True)
      \<and> loop_body E print_lines s0 line =
          (s0\<lparr>line_num := line_num s0 + 1, ok_count := ok_count s0 + 1, row := Some (PDict al'),
              out := out s0 @ (if print_lines then [ok_line E (line_num s0) (PDict al')] else [])\<rparr>,
           None)
      \<and> map_of al' ''registered_address'' = None
      \<and> map_of al' ''street_address'' = Some (PStr street)
      \<and> map_of al' ''city'' = Some (PStr city)
      \<and> map_of al' ''state'' = Some (PStr state_code)
      \<and> map_of al' ''zip'' = Some (PStr zipcode)"
proof -
  let ?al' = "structured street city state_code zipcode al"
  have checks: "check_schema (PDict al) VALID_FIELDS = Inr True"
      "null_check (PDict al) VALID_FIELDS = Inr True"
    using required_all_ok [OF assms(1)] by simp_all
  have tr: "transform_address (PDict al) = (PDict ?al', Inr True)"
    using assms(2,3) by (rule transform_address_match)
  have "loop_body E print_lines s0 line =
      (s0\<lparr>line_num := line_num s0 + 1, ok_count := ok_count s0 + 1, row := Some (PDict ?al'),
          out := out s0 @ (if print_lines then [ok_line E (line_num s0) (PDict ?al')] else [])\<rparr>,
       None)"
    using assms(4) checks tr by (rule loop_body_accept)
  with checks tr show ?thesis
    by (intro exI [of _ ?al']) (simp only: structured_fields simp_thms)
qed

theorem accepted_row_witness:
  "\<exists>al'. check_schema (PDict row_ok) VALID_FIELDS = Inr True
      \<and> null_check (PDict row_ok) VALID_FIELDS = Inr True
      \<and> transform_address (PDict row_ok) = (PDict al', Inr True)
      \<and> loop_body (sample_env []) True initial line_ok =
          (initial\<lparr>line_num := line_num initial + 1, ok_count := ok_count initial + 1,
              row := Some (PDict al'),
              out := out initial @
                (if True then [ok_line (sample_env []) (line_num initial) (PDict al')] else [])\<rparr>,
           None)
      \<and> map_of al' ''registered_address'' = None
      \<and> map_of al' ''street_address'' = Some (PStr ''123 Main St'')
      \<and> map_of al' ''city'' = Some (PStr ''Springfield'')
      \<and> map_of al' ''state'' = Some (PStr ''IL'')
      \<and> map_of al' ''zip'' = Some (PStr ''62704'')"
proof -
  have h1: "\<forall>f\<in>set VALID_FIELDS. \<exists>v. map_of row_ok f = Some v \<and> v \<noteq> PNone"
    by (simp add: VALID_FIELDS_def row_ok_def sample_row_def)
  have h2: "map_of row_ok ''registered_address'' = Some (PStr (main_st @ []))"
    by (simp add: row_ok_def sample_row_def)
  have h3: "two_line_pattern ''123 Main St'' ''Springfield'' ''IL'' ''62704'' main_st"
    by (simp add: two_line_pattern_def main_st_def street_char_def city_char_def
        lower_letter_def upper_letter_def digit_def)
  have h4: "loads (sample_env []) (strip line_ok) = Inr (PDict row_ok)"
    by code_simp
  show ?thesis
    by (rule accepted_row [OF h1 h2 h3 h4])
qed

text \<open>
  C5. When the address is a string that does not begin with text of the specified shape,
  \<open>transform_address\<close> raises \<open>ValueError\<close> and the message is
  \<^verbatim>\<open>Unknown address format: \<close> followed by the address stripped and then with every line
  break replaced by a comma and a space. Stripping removes whitespace at both ends and
  nothing else; the replacement works character by character.
\<close>

theorem unknown_address_format_message:
  "(map_of al ''registered_address'' = Some (PStr s) \<and> \<not> begins_with_address s
      \<longrightarrow> transform_address (PDict al) =
            (PDict al, Inl (ValueError (''Unknown address format: '' @ replace_newlines (strip s)))))
   \<and> (\<exists>a b. s = a @ strip s @ b \<and> list_all isspace a \<and> list_all isspace b)
   \<and> (strip s \<noteq> [] \<longrightarrow> \<not> isspace (hd (strip s)) \<and> \<not> isspace (last (strip s)))
   \<and> replace_newlines (t @ u) = replace_newlines t @ replace_newlines u
   \<and> replace_newlines [c] = (if c = LF then '', '' else [c])"
proof (intro conjI impI)
  assume "map_of al ''registered_address'' = Some (PStr s) \<and> \<not> begins_with_address s"
  then show "transform_address (PDict al) =
      (PDict al, Inl (ValueError (''Unknown address format: '' @ replace_newlines (strip s))))"
    by (simp add: transform_address_no_match)
next
  show "\<exists>a b. s = a @ strip s @ b \<and> list_all isspace a \<and> list_all isspace b"
    by (rule strip_decompose)
next
  assume "strip s \<noteq> []"
  then show "\<not> isspace (hd (strip s))" "\<not> isspace (last (strip s))"
    by (simp_all add: strip_ends)
next
  show "replace_newlines (t @ u) = replace_newlines t @ replace_newlines u"
    by (simp add: replace_newlines_def)
next
  show "replace_newlines [c] = (if c = LF then '', '' else [c])"
    by (simp add: replace_newlines_def)
qed

theorem unknown_address_format_message_witness:
  "transform_address (PDict row_flat) =
     (PDict row_flat,
      Inl (ValueError ''Unknown address format: 123 Main St, Springfield, IL 62704''))
   \<and> transform_address
       (PDict [(''registered_address'', PStr ('' 12 Elm St'' @ [LF] @ ''Springfield IL 62704 '' @ [LF]))]) =
     (PDict [(''registered_address'', PStr ('' 12 Elm St'' @ [LF] @ ''Springfield IL 62704 '' @ [LF]))],
      Inl (ValueError ''Unknown address format: 12 Elm St, Springfield IL 62704''))
   \<and> \<not> isspace (hd (strip '' 12 Elm St '')) \<and> \<not> isspace (last (strip '' 12 Elm St ''))"
proof -
  let ?flat = "''123 Main St, Springfield, IL 62704''"
  let ?elm = "'' 12 Elm St'' @ [LF] @ ''Springfield IL 62704 '' @ [LF]"
  have m1: "re_match address_regex ?flat = None" by code_simp
  have m2: "re_match address_regex ?elm = None" by code_simp
  have h1: "map_of row_flat ''registered_address'' = Some (PStr ?flat) \<and>
      \<not> begins_with_address ?flat"
    using m1 re_match_address_iff [of ?flat] by (simp add: row_flat_def sample_row_def)
  have h2: "map_of [(''registered_address'', PStr ?elm)] ''registered_address'' = Some (PStr ?elm) \<and>
      \<not> begins_with_address ?elm"
    using m2 re_match_address_iff [of ?elm] by simp
  have h3: "strip '' 12 Elm St '' \<noteq> []" by code_simp
  have e1: "replace_newlines (strip ?flat) = ''123 Main St, Springfield, IL 62704''" by code_simp
  have e2: "replace_newlines (strip ?elm) = ''12 Elm St, Springfield IL 62704''" by code_simp
  from h1 h2 h3 e1 e2
    unknown_address_format_message [of row_flat ?flat]
    unknown_address_format_message [of "[(''registered_address'', PStr ?elm)]" ?elm]
    unknown_address_format_message [of "[]" "'' 12 Elm St ''"]
  show ?thesis by simp
qed

text \<open>
  C6. The match is tried at the start of the address only and need not reach its end.
  When the address begins with text of the specified shape, \<open>transform_address\<close>
  succeeds and the record it leaves is built from the four parts alone, whatever
  follows them. When text of the specified shape stands only behind some leading
  content, and the address does not begin with such text, \<open>transform_address\<close> raises
  the \<open>ValueError\<close>.
\<close>

theorem match_anchored_at_start:
  "(two_line_pattern street city state_code zipcode m \<and>
      map_of al ''registered_address'' = Some (PStr (m @ rest))
      \<longrightarrow> transform_address (PDict al) =
            (PDict (structured street city state_code zipcode al), Inr True))
   \<and> (pre \<noteq> [] \<and> begins_with_address t \<and> \<not> begins_with_address (pre @ t) \<and>
      map_of al ''registered_address'' = Some (PStr (pre @ t))
      \<longrightarrow> transform_address (PDict al) =
            (PDict al,
             Inl (ValueError (''Unknown address format: '' @ replace_newlines (strip (pre @ t))))))"
proof (intro conjI impI)
  assume "two_line_pattern street city state_code zipcode m \<and>
      map_of al ''registered_address'' = Some (PStr (m @ rest))"
  then show "transform_address (PDict al) =
      (PDict (structured street city state_code zipcode al), Inr True)"
    by (simp add: transform_address_match)
next
  assume "pre \<noteq> [] \<and> begins_with_address t \<and> \<not> begins_with_address (pre @ t) \<and>
      map_of al ''registered_address'' = Some (PStr (pre @ t))"
  then show "transform_address (PDict al) =
      (PDict al, Inl (ValueError (''Unknown address format: '' @ replace_newlines (strip (pre @ t)))))"
    by (simp add: transform_address_no_match)
qed

theorem match_anchored_at_start_witness:
  "transform_address (PDict [(''registered_address'', PStr (main_st @ ''-1234, rear door''))]) =
     (PDict (structured ''123 Main St'' ''Springfield'' ''IL'' ''62704''
        [(''registered_address'', PStr (main_st @ ''-1234, rear door''))]), Inr True)
   \<and> structured ''123 Main St'' ''Springfield'' ''IL'' ''62704''
        [(''registered_address'', PStr (main_st @ ''-1234, rear door''))] =
      [(''street_address'', PStr ''123 Main St''), (''city'', PStr ''Springfield''),
       (''state'', PStr ''IL''), (''zip'', PStr ''62704'')]
   \<and> transform_address (PDict [(''registered_address'', PStr (''c/o Doe: '' @ main_st))]) =
     (PDict [(''registered_address'', PStr (''c/o Doe: '' @ main_st))],
      Inl (ValueError ''Unknown address format: c/o Doe: 123 Main St, Springfield, IL 62704''))"
proof -
  have p: "two_line_pattern ''123 Main St'' ''Springfield'' ''IL'' ''62704'' main_st"
    by (simp add: two_line_pattern_def main_st_def street_char_def city_char_def
        lower_letter_def upper_letter_def digit_def)
  have h1: "two_line_pattern ''123 Main St'' ''Springfield'' ''IL'' ''62704'' main_st \<and>
      map_of [(''registered_address'', PStr (main_st @ ''-1234, rear door''))] ''registered_address'' =
        Some (PStr (main_st @ ''-1234, rear door''))"
    using p by simp
  have b: "begins_with_address main_st"
    unfolding begins_with_address_def using p by (intro exI [of _ "[]"] exI) simp
  have n: "re_match address_regex (''c/o Doe: '' @ main_st) = None" by code_simp
  have h2: "''c/o Doe: '' \<noteq> [] \<and> begins_with_address main_st \<and>
      \<not> begins_with_address (''c/o Doe: '' @ main_st) \<and>
      map_of [(''registered_address'', PStr (''c/o Doe: '' @ main_st))] ''registered_address'' =
        Some (PStr (''c/o Doe: '' @ main_st))"
    using b n re_match_address_iff [of "''c/o Doe: '' @ main_st"] by simp
  have e1: "structured ''123 Main St'' ''Springfield'' ''IL'' ''62704''
        [(''registered_address'', PStr (main_st @ ''-1234, rear door''))] =
      [(''street_address'', PStr ''123 Main St''), (''city'', PStr ''Springfield''),
       (''state'', PStr ''IL''), (''zip'', PStr ''62704'')]"
    by (simp add: structured_def)
  have e2: "replace_newlines (strip (''c/o Doe: '' @ main_st)) =
      ''c/o Doe: 123 Main St, Springfield, IL 62704''"
    by code_simp
  from h1 h2 e1 e2
    match_anchored_at_start [of "''123 Main St''" "''Springfield''" "''IL''" "''62704''" main_st
      "[(''registered_address'', PStr (main_st @ ''-1234, rear door''))]" "''-1234, rear door''"
      "''c/o Doe: ''" main_st]
    match_anchored_at_start [of "''123 Main St''" "''Springfield''" "''IL''" "''62704''" main_st
      "[(''registered_address'', PStr (''c/o Doe: '' @ main_st))]" "''-1234, rear door''"
      "''c/o Doe: ''" main_st]
  show ?thesis by simp
qed

text \<open>
  C7. Whenever \<open>transform_address\<close> raises, the row is as it was before the call: no
  structured field has been set and \<open>registered_address\<close> has not been removed. The row
  is changed only in a dict whose address is a string beginning with text of the
  specified shape. So the row a rejected line leaves in \<^verbatim>\<open>run\<close>, once decoded, is the
  decoded row.
\<close>

theorem failure_leaves_row_unchanged:
  "(snd (transform_address r) = Inl e \<longrightarrow> fst (transform_address r) = r)
   \<and> (fst (transform_address r) \<noteq> r \<longrightarrow>
        (\<exists>al s. r = PDict al \<and> map_of al ''registered_address'' = Some (PStr s) \<and>
           begins_with_address s))
   \<and> (loads E (strip line) = Inr v \<and> try_suite E print_lines s0 line = (s1, Some e')
        \<longrightarrow> row s1 = Some v)"
proof (intro conjI impI)
  assume "snd (transform_address r) = Inl e"
  then show "fst (transform_address r) = r"
    by (rule transform_address_failure_unchanged)
next
  assume changed: "fst (transform_address r) \<noteq> r"
  then obtain v where sub: "subscript r ''registered_address'' = Inr v"
    by (cases "subscript r ''registered_address''") (auto simp: transform_address_def)
  then obtain al where r: "r = PDict al" and v: "map_of al ''registered_address'' = Some v"
    by (cases r) (auto split: option.splits)
  have "\<exists>s. v = PStr s"
  proof (rule ccontr)
    assume "\<not> (\<exists>s. v = PStr s)"
    then have "\<forall>s. v \<noteq> PStr s" by blast
    with v have "transform_address (PDict al) = (PDict al, Inl TypeError)"
      by (rule transform_address_not_str)
    with changed r show False by simp
  qed
  then obtain s where s: "v = PStr s" by blast
  have "begins_with_address s"
  proof (rule ccontr)
    assume "\<not> begins_with_address s"
    with v s have "fst (transform_address (PDict al)) = PDict al"
      by (simp add: transform_address_no_match)
    with changed r show False by simp
  qed
  with r v s show "\<exists>al s. r = PDict al \<and> map_of al ''registered_address'' = Some (PStr s) \<and>
      begins_with_address s"
    by blast
next
  assume a: "loads E (strip line) = Inr v \<and> try_suite E print_lines s0 line = (s1, Some e')"
  obtain v' res where t: "transform_address v = (v', res)"
    by (cases "transform_address v")
  have "res = Inl e'' \<Longrightarrow> v' = v" for e''
    using t transform_address_failure_unchanged [of v e''] by simp
  with a t show "row s1 = Some v"
    by (auto simp: try_suite_def Let_def split: sum.splits if_splits)
qed

theorem failure_leaves_row_unchanged_witness:
  "fst (transform_address (PDict row_flat)) = PDict row_flat
   \<and> (\<exists>al s. PDict row_ok = PDict al \<and> map_of al ''registered_address'' = Some (PStr s) \<and>
         begins_with_address s)
   \<and> row (initial\<lparr>row := Some (PDict row_flat)\<rparr>) = Some (PDict row_flat)"
proof -
  have h1: "snd (transform_address (PDict row_flat)) =
      Inl (ValueError ''Unknown address format: 123 Main St, Springfield, IL 62704'')"
    by code_simp
  have h2: "fst (transform_address (PDict row_ok)) \<noteq> PDict row_ok"
    by code_simp
  have h3: "loads (sample_env []) (strip line_flat) = Inr (PDict row_flat) \<and>
      try_suite (sample_env []) False initial line_flat =
        (initial\<lparr>row := Some (PDict row_flat)\<rparr>,
         Some (ValueError ''Unknown address format: 123 Main St, Springfield, IL 62704''))"
    by code_simp
  from h1 h2 h3
    failure_leaves_row_unchanged [of "PDict row_flat"
      "ValueError ''Unknown address format: 123 Main St, Springfield, IL 62704''"
      "sample_env []" line_flat "PDict row_flat" False initial
      "initial\<lparr>row := Some (PDict row_flat)\<rparr>"
      "ValueError ''Unknown address format: 123 Main St, Springfield, IL 62704''"]
    failure_leaves_row_unchanged [of "PDict row_ok"
      "ValueError ''Unknown address format: 123 Main St, Springfield, IL 62704''"
      "sample_env []" line_flat "PDict row_flat" False initial
      "initial\<lparr>row := Some (PDict row_flat)\<rparr>"
      "ValueError ''Unknown address format: 123 Main St, Springfield, IL 62704''"]
  show ?thesis by blast
qed

text \<open>
  C10. When the address of a record is present and is not a string, \<open>transform_address\<close>
  raises \<open>TypeError\<close>, not the \<open>ValueError\<close> of an unknown address format, and leaves the
  record as it was. In \<^verbatim>\<open>run\<close>, for a record with all six required fields not null, the
  handler catches it: the iteration prints the error line, counts the row as rejected
  and raises nothing.
\<close>

theorem non_string_address_type_error:
  "(map_of al ''registered_address'' = Some v \<and> (\<forall>s. v \<noteq> PStr s)
      \<longrightarrow> transform_address (PDict al) = (PDict al, Inl TypeError))
   \<and> ((\<forall>f\<in>set VALID_FIELDS. \<exists>x. map_of al f = Some x \<and> x \<noteq> PNone) \<and>
      map_of al ''registered_address'' = Some v \<and> (\<forall>s. v \<noteq> PStr s) \<and>
      loads E (strip line) = Inr (PDict al)
      \<longrightarrow> loop_body E print_lines s0 line =
            (s0\<lparr>line_num := line_num s0 + 1, reject_count := reject_count s0 + 1,
                row := Some (PDict al),
                out := out s0 @ [error_line E (line_num s0) TypeError (PDict al)]\<rparr>, None))"
proof (intro conjI impI)
  assume "map_of al ''registered_address'' = Some v \<and> (\<forall>s. v \<noteq> PStr s)"
  then show "transform_address (PDict al) = (PDict al, Inl TypeError)"
    by (simp add: transform_address_not_str)
next
  assume a: "(\<forall>f\<in>set VALID_FIELDS. \<exists>x. map_of al f = Some x \<and> x \<noteq> PNone) \<and>
      map_of al ''registered_address'' = Some v \<and> (\<forall>s. v \<noteq> PStr s) \<and>
      loads E (strip line) = Inr (PDict al)"
  then have checks: "check_schema (PDict al) VALID_FIELDS = Inr True"
      "null_check (PDict al) VALID_FIELDS = Inr True"
    using required_all_ok [of VALID_FIELDS al] by simp_all
  from a have "transform_address (PDict al) = (PDict al, Inl TypeError)"
    by (simp add: transform_address_not_str)
  with a checks show "loop_body E print_lines s0 line =
      (s0\<lparr>line_num := line_num s0 + 1, reject_count := reject_count s0 + 1,
          row := Some (PDict al),
          out := out s0 @ [error_line E (line_num s0) TypeError (PDict al)]\<rparr>, None)"
    by (intro loop_body_reject [where a = True and b = True]) simp_all
qed

theorem non_string_address_type_error_witness:
  "transform_address (PDict row_number) = (PDict row_number, Inl TypeError)
   \<and> loop_body (sample_env []) False initial line_number =
       (initial\<lparr>line_num := line_num initial + 1, reject_count := reject_count initial + 1,
           row := Some (PDict row_number),
           out := out initial @
             [error_line (sample_env []) (line_num initial) TypeError (PDict row_number)]\<rparr>, None)"
proof -
  have h1: "map_of row_number ''registered_address'' = Some (PInt 62704) \<and>
      (\<forall>s. PInt 62704 \<noteq> PStr s)"
    by (simp add: row_number_def sample_row_def)
  have h2: "\<forall>f\<in>set VALID_FIELDS. \<exists>x. map_of row_number f = Some x \<and> x \<noteq> PNone"
    by (simp add: VALID_FIELDS_def row_number_def sample_row_def)
  have h3: "loads (sample_env []) (strip line_number) = Inr (PDict row_number)"
    by code_simp
  from h1 h2 h3
    non_string_address_type_error [of row_number "PInt 62704" "sample_env []" line_number
      False initial]
  show ?thesis by blast
qed

section \<open>Properties of the row loop\<close>

lemma digits_0: "digits 0 = ''0''"
  by code_simp

lemma fmt04d_0: "fmt04d 0 = ''0000''"
  by code_simp

lemma try_suite_counts:
  "try_suite E print_lines s0 line = (s1, r) \<Longrightarrow>
     line_num s1 = line_num s0 \<and> reject_count s1 = reject_count s0 \<and>
     ok_count s1 = (if r = None then ok_count s0 + 1 else ok_count s0)"
  by (auto simp: try_suite_def Let_def split: sum.splits prod.splits if_splits)

lemma try_suite_error_row:
  "try_suite E print_lines s0 line = (s1, Some e) \<Longrightarrow>
     row s1 = None \<longleftrightarrow> row s0 = None \<and> (\<exists>d. loads E (strip line) = Inl d)"
  by (auto simp: try_suite_def Let_def split: sum.splits prod.splits if_splits)

lemma try_suite_row_bound:
  "try_suite E print_lines s0 line = (s1, r) \<Longrightarrow> row s0 \<noteq> None \<Longrightarrow> row s1 \<noteq> None"
  by (auto simp: try_suite_def Let_def split: sum.splits prod.splits if_splits)

lemma except_suite_counts:
  "except_suite E s0 e = (s1, None) \<Longrightarrow>
     line_num s1 = line_num s0 \<and> ok_count s1 = ok_count s0 \<and>
     reject_count s1 = reject_count s0 + 1 \<and> row s1 = row s0"
  by (auto simp: except_suite_def split: option.splits)

lemma loop_body_counts:
  assumes "loop_body E print_lines s0 line = (s1, None)"
  shows "line_num s1 = line_num s0 + 1 \<and>
     (ok_count s1 = ok_count s0 + 1 \<and> reject_count s1 = reject_count s0 \<or>
      ok_count s1 = ok_count s0 \<and> reject_count s1 = reject_count s0 + 1)"
proof -
  obtain s r where t: "try_suite E print_lines s0 line = (s, r)"
    by (cases "try_suite E print_lines s0 line")
  show ?thesis
  proof (cases r)
    case None
    with t assms have "s1 = s\<lparr>line_num := line_num s + 1\<rparr>"
      by (simp add: loop_body_def)
    with try_suite_counts [OF t] None show ?thesis by simp
  next
    case (Some e)
    obtain s' r' where x: "except_suite E s e = (s', r')"
      by (cases "except_suite E s e")
    with t Some assms have "s1 = s'\<lparr>line_num := line_num s' + 1\<rparr>" "r' = None"
      by (simp_all add: loop_body_def)
    with try_suite_counts [OF t] except_suite_counts [of E s e s'] x Some show ?thesis
      by simp
  qed
qed

lemma for_lines_counts:
  "for_lines E print_lines s0 lines = (s1, None) \<Longrightarrow>
     line_num s1 = line_num s0 + length lines \<and>
     ok_count s1 + reject_count s1 = ok_count s0 + reject_count s0 + length lines"
proof (induction lines arbitrary: s0)
  case Nil
  then show ?case by simp
next
  case (Cons line rest)
  obtain s r where b: "loop_body E print_lines s0 line = (s, r)"
    by (cases "loop_body E print_lines s0 line")
  with Cons.prems have r: "r = None" and f: "for_lines E print_lines s rest = (s1, None)"
    by (auto split: option.splits)
  from b r have "loop_body E print_lines s0 line = (s, None)" by simp
  from loop_body_counts [OF this] Cons.IH [OF f] show ?case by auto
qed

text \<open>
  An exception leaves the loop body exactly when the \<^verbatim>\<open>try\<close> suite raises while \<open>row\<close>
  is unassigned, that is when \<^verbatim>\<open>json.loads\<close> raises and no earlier line has been
  decoded. The exception is then \<open>UnboundLocalError\<close>, and nothing has been printed or
  counted for the line.
\<close>

lemma loop_body_raises_iff:
  "snd (loop_body E print_lines s0 line) \<noteq> None \<longleftrightarrow>
     row s0 = None \<and> (\<exists>d. loads E (strip line) = Inl d)"
  by (auto simp: loop_body_def try_suite_def except_suite_def Let_def
      split: sum.splits prod.splits option.splits if_splits)

lemma loop_body_unbound:
  "row s0 = None \<Longrightarrow> loads E (strip line) = Inl d \<Longrightarrow>
     loop_body E print_lines s0 line =
       (s0\<lparr>line_num := line_num s0 + 1\<rparr>, Some (UnboundLocalError ''row''))"
  by (simp add: loop_body_def try_suite_def except_suite_def)

lemma loop_body_row_bound:
  "snd (loop_body E print_lines s0 line) = None \<Longrightarrow>
     row (fst (loop_body E print_lines s0 line)) \<noteq> None"
  by (auto simp: loop_body_def try_suite_def except_suite_def Let_def
      split: sum.splits prod.splits option.splits if_splits)

lemma for_lines_bound:
  "row s0 \<noteq> None \<Longrightarrow> snd (for_lines E print_lines s0 lines) = None"
proof (induction lines arbitrary: s0)
  case Nil
  then show ?case by simp
next
  case (Cons line rest)
  from Cons.prems have n: "snd (loop_body E print_lines s0 line) = None"
    using loop_body_raises_iff [of E print_lines s0 line] by auto
  then obtain s where b: "loop_body E print_lines s0 line = (s, None)"
    by (cases "loop_body E print_lines s0 line") auto
  with loop_body_row_bound [OF n] have "row s \<noteq> None" by simp
  from Cons.IH [OF this] b show ?case by simp
qed

lemma for_lines_raises_iff:
  "snd (for_lines E print_lines initial lines) \<noteq> None \<longleftrightarrow>
     (\<exists>line rest d. lines = line # rest \<and> loads E (strip line) = Inl d)"
proof (cases lines)
  case Nil
  then show ?thesis by simp
next
  case (Cons line rest)
  show ?thesis
  proof (cases "loads E (strip line)")
    case (Inl d)
    then show ?thesis
      using Cons loop_body_unbound [of initial E line d print_lines]
      by (simp add: initial_def)
  next
    case (Inr v)
    then have n: "snd (loop_body E print_lines initial line) = None"
      using loop_body_raises_iff [of E print_lines initial line] by auto
    then obtain s where b: "loop_body E print_lines initial line = (s, None)"
      by (cases "loop_body E print_lines initial line") auto
    with loop_body_row_bound [OF n] have "row s \<noteq> None" by simp
    from for_lines_bound [OF this] b Inr Cons show ?thesis by simp
  qed
qed

text \<open>
  C8. When the loop of \<^verbatim>\<open>run\<close> finishes without an exception leaving it, the OK count
  plus the rejected count is the number of lines of the file, the line counter is that
  number plus one, and \<^verbatim>\<open>run\<close> prints these totals after everything the loop printed.
  Every iteration that raises nothing increments exactly one of the two counts, by one.
  For a file without lines the output is \<^verbatim>\<open>Read 0 rows\<close> and
  \<^verbatim>\<open>OK rows: 0000, Rejected rows: 0000\<close>.
\<close>

theorem counters_add_up:
  "(open_file E file_name = Inr lines \<and> snd (for_lines E print_lines initial lines) = None
      \<longrightarrow> (let s1 = fst (for_lines E print_lines initial lines) in
            ok_count s1 + reject_count s1 = length lines \<and>
            line_num s1 = length lines + 1 \<and>
            run E file_name print_lines =
              (out s1 @
               [''Read '' @ digits (length lines) @ '' rows'',
                ''OK rows: '' @ fmt04d (ok_count s1) @ '', Rejected rows: '' @
                  fmt04d (reject_count s1)], None)))
   \<and> (snd (loop_body E print_lines s0 line) = None
      \<longrightarrow> (let s1 = fst (loop_body E print_lines s0 line) in
            line_num s1 = line_num s0 + 1 \<and>
            (ok_count s1 = ok_count s0 + 1 \<and> reject_count s1 = reject_count s0 \<or>
             ok_count s1 = ok_count s0 \<and> reject_count s1 = reject_count s0 + 1)))
   \<and> (open_file E file_name = Inr []
      \<longrightarrow> run E file_name print_lines =
            ([''Read 0 rows'', ''OK rows: 0000, Rejected rows: 0000''], None))"
proof (intro conjI impI)
  assume a: "open_file E file_name = Inr lines \<and>
      snd (for_lines E print_lines initial lines) = None"
  define s1 where "s1 = fst (for_lines E print_lines initial lines)"
  from a have f: "for_lines E print_lines initial lines = (s1, None)"
    by (simp add: s1_def prod_eq_iff)
  from for_lines_counts [OF f]
  have c: "line_num s1 = length lines + 1" "ok_count s1 + reject_count s1 = length lines"
    by (simp_all add: initial_def)
  from a f c have "run E file_name print_lines =
      (out s1 @
       [''Read '' @ digits (length lines) @ '' rows'',
        ''OK rows: '' @ fmt04d (ok_count s1) @ '', Rejected rows: '' @
          fmt04d (reject_count s1)], None)"
    by (simp add: run_def summary_def)
  with c show "let s1 = fst (for_lines E print_lines initial lines) in
      ok_count s1 + reject_count s1 = length lines \<and>
      line_num s1 = length lines + 1 \<and>
      run E file_name print_lines =
        (out s1 @
         [''Read '' @ digits (length lines) @ '' rows'',
          ''OK rows: '' @ fmt04d (ok_count s1) @ '', Rejected rows: '' @
            fmt04d (reject_count s1)], None)"
    unfolding Let_def s1_def [symmetric] by simp
next
  assume "snd (loop_body E print_lines s0 line) = None"
  then have "loop_body E print_lines s0 line = (fst (loop_body E print_lines s0 line), None)"
    by (simp add: prod_eq_iff)
  from loop_body_counts [OF this]
  show "let s1 = fst (loop_body E print_lines s0 line) in
      line_num s1 = line_num s0 + 1 \<and>
      (ok_count s1 = ok_count s0 + 1 \<and> reject_count s1 = reject_count s0 \<or>
       ok_count s1 = ok_count s0 \<and> reject_count s1 = reject_count s0 + 1)"
    by (simp add: Let_def)
next
  assume "open_file E file_name = Inr []"
  then show "run E file_name print_lines =
      ([''Read 0 rows'', ''OK rows: 0000, Rejected rows: 0000''], None)"
    by (simp add: run_def summary_def initial_def digits_0 fmt04d_0 del: digits.simps)
qed

theorem counters_add_up_witness:
  "(let s1 = fst (for_lines (sample_env six_lines) False initial six_lines) in
      ok_count s1 + reject_count s1 = 6 \<and> ok_count s1 = 1 \<and> reject_count s1 = 5 \<and>
      run (sample_env six_lines) ''./data/vehicles_complex.json'' False =
        (out s1 @ [''Read 6 rows'', ''OK rows: 0001, Rejected rows: 0005''], None))
   \<and> (let s1 = fst (loop_body (sample_env []) False initial line_ok) in
        ok_count s1 = 1 \<and> reject_count s1 = 0)
   \<and> (let s1 = fst (loop_body (sample_env []) False initial line_null) in
        ok_count s1 = 0 \<and> reject_count s1 = 1)
   \<and> run (sample_env []) ''./data/vehicles_complex.json'' False =
       ([''Read 0 rows'', ''OK rows: 0000, Rejected rows: 0000''], None)"
proof -
  have h1: "open_file (sample_env six_lines) ''./data/vehicles_complex.json'' = Inr six_lines \<and>
      snd (for_lines (sample_env six_lines) False initial six_lines) = None"
    by code_simp
  have e1: "ok_count (fst (for_lines (sample_env six_lines) False initial six_lines)) = 1"
    by code_simp
  have e2: "reject_count (fst (for_lines (sample_env six_lines) False initial six_lines)) = 5"
    by code_simp
  have l: "length six_lines = 6" by (simp add: six_lines_def)
  have d: "digits 6 = ''6''" "fmt04d 1 = ''0001''" "fmt04d 5 = ''0005''" by code_simp+
  have h2: "snd (loop_body (sample_env []) False initial line_ok) = None" by code_simp
  have e3: "ok_count (fst (loop_body (sample_env []) False initial line_ok)) = 1" by code_simp
  have h3: "snd (loop_body (sample_env []) False initial line_null) = None" by code_simp
  have e4: "ok_count (fst (loop_body (sample_env []) False initial line_null)) = 0" by code_simp
  have h4: "open_file (sample_env []) ''./data/vehicles_complex.json'' = Inr []"
    by (simp add: sample_env_def sample_open_def)
  have i: "ok_count initial = 0" "reject_count initial = 0" by (simp_all add: initial_def)
  from h1 e1 e2 l d
    counters_add_up [of "sample_env six_lines" "''./data/vehicles_complex.json''" six_lines False
      initial line_ok]
  have p1: "let s1 = fst (for_lines (sample_env six_lines) False initial six_lines) in
      ok_count s1 + reject_count s1 = 6 \<and> ok_count s1 = 1 \<and> reject_count s1 = 5 \<and>
      run (sample_env six_lines) ''./data/vehicles_complex.json'' False =
        (out s1 @ [''Read 6 rows'', ''OK rows: 0001, Rejected rows: 0005''], None)"
    by (simp add: Let_def)
  from h2 e3 i
    counters_add_up [of "sample_env []" "''./data/vehicles_complex.json''" "[]" False
      initial line_ok]
  have p2: "let s1 = fst (loop_body (sample_env []) False initial line_ok) in
      ok_count s1 = 1 \<and> reject_count s1 = 0"
    by (simp add: Let_def)
  from h3 e4 i
    counters_add_up [of "sample_env []" "''./data/vehicles_complex.json''" "[]" False
      initial line_null]
  have p3: "let s1 = fst (loop_body (sample_env []) False initial line_null) in
      ok_count s1 = 0 \<and> reject_count s1 = 1"
    by (simp add: Let_def)
  from h4
    counters_add_up [of "sample_env []" "''./data/vehicles_complex.json''" "[]" False
      initial line_ok]
  have p4: "run (sample_env []) ''./data/vehicles_complex.json'' False =
      ([''Read 0 rows'', ''OK rows: 0000, Rejected rows: 0000''], None)"
    by blast
  from p1 p2 p3 p4 show ?thesis by simp
qed

lemma run_unbound_row:
  "open_file E file_name = Inr (line # rest) \<Longrightarrow> loads E (strip line) = Inl d \<Longrightarrow>
     run E file_name print_lines = ([], Some (UnboundLocalError ''row''))"
  using loop_body_unbound [of initial E line d print_lines]
  by (simp add: run_def initial_def)

lemma run_open_fails:
  "open_file E file_name = Inl e \<Longrightarrow> run E file_name print_lines = ([], Some e)"
  by (simp add: run_def)

text \<open>
  C1. The handler of \<^verbatim>\<open>run\<close> is meant to turn every exception of a row into a printed
  rejection and to go on with the next line. Its \<^verbatim>\<open>print\<close> reads \<open>row\<close>, which
  \<^verbatim>\<open>json.loads\<close> has not assigned when it is the step that raised. In a file whose
  first line is not valid JSON the handler itself raises \<open>UnboundLocalError\<close>: nothing is
  printed, the valid second line is never read, and the exception leaves \<^verbatim>\<open>run\<close>. When
  an earlier line has been decoded, the rejection line of an undecodable line shows that
  earlier row (here the transformed row of line 1 in the rejection of line 2).
\<close>

theorem undecodable_first_line_aborts_run:
  "loads (sample_env [line_bad, line_ok]) (strip line_bad) =
     Inl (JSONDecodeError ''Expecting value: line 1 column 1 (char 0)'')
   \<and> loads (sample_env [line_bad, line_ok]) (strip line_ok) = Inr (PDict row_ok)
   \<and> run (sample_env [line_bad, line_ok]) ''./data/vehicles_complex.json'' True =
       ([], Some (UnboundLocalError ''row''))
   \<and> run (sample_env [line_ok, line_bad]) ''./data/vehicles_complex.json'' False =
       ([error_line (sample_env []) 2
           (JSONDecodeError ''Expecting value: line 1 column 1 (char 0)'')
           (PDict (structured ''123 Main St'' ''Springfield'' ''IL'' ''62704'' row_ok)),
         ''Read 2 rows'', ''OK rows: 0001, Rejected rows: 0001''], None)"
  by code_simp

text \<open>
  C9. When \<^verbatim>\<open>open\<close> raises, \<^verbatim>\<open>run\<close> prints nothing and the exception leaves it. A run
  whose file was opened is meant to end with the two summary lines; for a file whose
  only line is not valid JSON the file is opened and read, and still nothing is printed:
  the exception raised inside the handler ends the run before the summary.
\<close>

theorem no_summary_after_undecodable_first_line:
  "open_file (sample_env [line_bad]) ''./data/vehicles_complex.json'' = Inr [line_bad]
   \<and> run (sample_env [line_bad]) ''./data/vehicles_complex.json'' False =
       ([], Some (UnboundLocalError ''row''))
   \<and> run (sample_env [line_bad]) ''./data/missing.json'' False =
       ([], Some (OSError ''No such file or directory''))"
  by code_simp

end
